theory Spec2Isabelle
  imports Complex_Main "HOL-Library.Sublist"
begin

section \<open>Strings\<close>

text \<open>
  A Python \<open>str\<close> is modelled as a \<open>string\<close>, one \<open>char\<close> per character, which covers
  the characters up to U+00FF. \<open>str.lower\<close> maps the upper-case letters of that range
  (\<open>A\<close>..\<open>Z\<close>, U+00C0..U+00D6, U+00D8..U+00DE) to the character 32 places later and
  leaves every other character alone.
\<close>

definition upper_chars :: "char list" where
  "upper_chars = ''ABCDEFGHIJKLMNOPQRSTUVWXYZ'' @
     [CHR 0xC0, CHR 0xC1, CHR 0xC2, CHR 0xC3, CHR 0xC4, CHR 0xC5, CHR 0xC6, CHR 0xC7,
      CHR 0xC8, CHR 0xC9, CHR 0xCA, CHR 0xCB, CHR 0xCC, CHR 0xCD, CHR 0xCE, CHR 0xCF,
      CHR 0xD0, CHR 0xD1, CHR 0xD2, CHR 0xD3, CHR 0xD4, CHR 0xD5, CHR 0xD6,
      CHR 0xD8, CHR 0xD9, CHR 0xDA, CHR 0xDB, CHR 0xDC, CHR 0xDD, CHR 0xDE]"

definition lower_chars :: "char list" where
  "lower_chars = ''abcdefghijklmnopqrstuvwxyz'' @
     [CHR 0xE0, CHR 0xE1, CHR 0xE2, CHR 0xE3, CHR 0xE4, CHR 0xE5, CHR 0xE6, CHR 0xE7,
      CHR 0xE8, CHR 0xE9, CHR 0xEA, CHR 0xEB, CHR 0xEC, CHR 0xED, CHR 0xEE, CHR 0xEF,
      CHR 0xF0, CHR 0xF1, CHR 0xF2, CHR 0xF3, CHR 0xF4, CHR 0xF5, CHR 0xF6,
      CHR 0xF8, CHR 0xF9, CHR 0xFA, CHR 0xFB, CHR 0xFC, CHR 0xFD, CHR 0xFE]"

definition lower_char :: "char \<Rightarrow> char" where
  "lower_char c = (case map_of (zip upper_chars lower_chars) c of Some d \<Rightarrow> d | None \<Rightarrow> c)"

definition lower :: "string \<Rightarrow> string" where
  "lower s = map lower_char s"

text \<open>\<open>s.startswith(p)\<close>.\<close>

fun startswith :: "string \<Rightarrow> string \<Rightarrow> bool" where
  "startswith s [] = True"
| "startswith [] (p # ps) = False"
| "startswith (c # cs) (p # ps) = (c = p \<and> startswith cs ps)"

text \<open>\<open>k in q\<close> on strings: \<open>k\<close> occurs in \<open>q\<close> as a contiguous run.\<close>

fun str_in :: "string \<Rightarrow> string \<Rightarrow> bool" where
  "str_in k [] = (k = [])"
| "str_in k (c # cs) = (startswith (c # cs) k \<or> str_in k cs)"

section \<open>Number formatting\<close>

text \<open>
  Numeric cells are modelled by the rational numbers they denote and arithmetic on them is
  exact; the rounding error of binary floating point is outside this model. The format
  specifications \<open>.2f\<close>, \<open>,.2f\<close> and \<open>.1f\<close> round the exact value to the nearest multiple
  of the last place, ties to the even neighbour, and keep the sign of a negative value.
\<close>

definition digit_char :: "nat \<Rightarrow> char" where
  "digit_char d = ''0123456789'' ! d"

fun show_nat :: "nat \<Rightarrow> string" where
  "show_nat n = (if n < 10 then [digit_char n] else show_nat (n div 10) @ [digit_char (n mod 10)])"

declare show_nat.simps [simp del]

fun group3 :: "string \<Rightarrow> string" where
  "group3 s = (if length s \<le> 3 then s
     else group3 (take (length s - 3) s) @ '','' @ drop (length s - 3) s)"

declare group3.simps [simp del]

definition round_half_even :: "rat \<Rightarrow> int" where
  "round_half_even x =
     (let f = \<lfloor>x\<rfloor>; r = x - of_int f
      in if r < 1 / 2 then f else if 1 / 2 < r then f + 1 else if even f then f else f + 1)"

definition zfill :: "nat \<Rightarrow> string \<Rightarrow> string" where
  "zfill w s = replicate (w - length s) CHR ''0'' @ s"

definition format_f :: "bool \<Rightarrow> nat \<Rightarrow> rat \<Rightarrow> string" where
  "format_f grouping prec x =
     (let n = nat (round_half_even (\<bar>x\<bar> * 10 ^ prec));
          ip = show_nat (n div 10 ^ prec);
          fp = zfill prec (show_nat (n mod 10 ^ prec))
      in (if x < 0 then ''-'' else []) @ (if grouping then group3 ip else ip) @
         (if prec = 0 then [] else ''.'' @ fp))"

text \<open>A float that may be NaN is a \<open>rat option\<close>, \<open>None\<close> for NaN, which prints as \<open>nan\<close>.\<close>

definition format_float :: "bool \<Rightarrow> nat \<Rightarrow> rat option \<Rightarrow> string" where
  "format_float grouping prec x = (case x of None \<Rightarrow> ''nan'' | Some v \<Rightarrow> format_f grouping prec v)"

text \<open>Reading a run of decimal digits back as a number, to say what a formatted text denotes.\<close>

definition digit_val :: "char \<Rightarrow> nat" where
  "digit_val c = (case map_of (zip ''0123456789'' [0, 1, 2, 3, 4, 5, 6, 7, 8, 9]) c of
       Some d \<Rightarrow> d | None \<Rightarrow> 0)"

definition read_nat :: "string \<Rightarrow> nat" where
  "read_nat s = foldl (\<lambda>a c. 10 * a + digit_val c) 0 s"

section \<open>The dataset\<close>

text \<open>
  A row of the data frame, with the required columns. \<open>None\<close> is the null cell (NaN, NaT).
  The numeric columns hold numbers after \<open>to_numeric\<close>, the datetime columns hold
  nanoseconds since the epoch after \<open>to_datetime\<close>, the other columns hold the cell as
  \<open>str\<close> prints it.
\<close>

record row =
  GrossQuantity :: "rat option"
  FlowRate :: "rat option"
  ShipmentCompartmentID :: "string option"
  BaseProductID :: "string option"
  BaseProductCode :: "string option"
  ShipmentID :: "string option"
  ShipmentCode :: "string option"
  ExitTime :: "int option"
  BayCode :: "string option"
  ScheduledDate :: "int option"
  CreatedTime :: "int option"

type_synonym dataframe = "row list"

text \<open>A raised exception, with the message \<open>str(e)\<close> gives.\<close>

datatype exception = Exception string

fun str_of_exception :: "exception \<Rightarrow> string" where
  "str_of_exception (Exception msg) = msg"

text \<open>The \<open>Dict[str, Any]\<close> a handler returns: keys \<open>text\<close> and \<open>imageUrl\<close>.\<close>

type_synonym result = "string \<rightharpoonup> string"

definition str_cell :: "string option \<Rightarrow> string" where
  "str_cell c = (case c of None \<Rightarrow> ''nan'' | Some s \<Rightarrow> s)"

section \<open>Intent classification\<close>

definition classify_query_intent :: "string \<Rightarrow> string" where
  "classify_query_intent query =
     (let q = lower query
      in if list_ex (\<lambda>k. str_in k q) [''forecast'', ''predict'', ''projection'', ''next '']
         then ''forecast''
         else if list_ex (\<lambda>k. str_in k q)
               [''trend'', ''over time'', ''time series'', ''by day'', ''by month'',
                ''chart'', ''plot'', ''graph'']
         then ''trend''
         else ''analysis'')"

section \<open>Rule engine\<close>

text \<open>\<open>Series.sum()\<close>: the sum of the non-null cells, 0 for none.\<close>

definition nansum :: "rat option list \<Rightarrow> rat" where
  "nansum col = sum_list (List.map_filter id col)"

text \<open>
  \<open>Series.idxmax()\<close>: one pass from the top that skips null cells and replaces the best cell
  seen so far only by a strictly larger one. A column with no non-null cell raises (the
  wording of the message varies with the version of the library; only that it raises
  matters here).
\<close>

fun argmax_scan :: "(nat \<times> rat) option \<Rightarrow> nat \<Rightarrow> rat option list \<Rightarrow> (nat \<times> rat) option" where
  "argmax_scan best i [] = best"
| "argmax_scan best i (None # cs) = argmax_scan best (Suc i) cs"
| "argmax_scan None i (Some v # cs) = argmax_scan (Some (i, v)) (Suc i) cs"
| "argmax_scan (Some (j, b)) i (Some v # cs) =
     argmax_scan (if b < v then Some (i, v) else Some (j, b)) (Suc i) cs"

definition idxmax :: "rat option list \<Rightarrow> exception + nat" where
  "idxmax col = (case argmax_scan None 0 col of
       None \<Rightarrow> Inl (Exception ''attempt to get argmax of an empty sequence'')
     | Some (j, b) \<Rightarrow> Inr j)"

text \<open>\<open>Series.nunique()\<close>: the number of distinct non-null cells.\<close>

definition nunique :: "string option list \<Rightarrow> nat" where
  "nunique col = length (remdups (List.map_filter id col))"

text \<open>\<open>df.loc[idx]\<close> on the default index: the row at that position, KeyError beyond the end.\<close>

definition loc :: "dataframe \<Rightarrow> nat \<Rightarrow> exception + row" where
  "loc df idx = (if idx < length df then Inr (df ! idx) else Inl (Exception (show_nat idx)))"

definition answer_with_rules :: "dataframe \<Rightarrow> string \<Rightarrow> exception + result" where
  "answer_with_rules df query =
     (let q = lower query
      in if str_in ''total'' q \<and> str_in ''quantity'' q then
           (let total = nansum (map GrossQuantity df)
            in Inr [''text'' \<mapsto> ''Total GrossQuantity: '' @ format_f True 2 total])
         else if str_in ''highest'' q \<and> (str_in ''flow'' q \<or> str_in ''flowrate'' q) then
           (case idxmax (map FlowRate df) of
              Inl e \<Rightarrow> Inl e
            | Inr idx \<Rightarrow>
               (case loc df idx of
                  Inl e \<Rightarrow> Inl e
                | Inr row \<Rightarrow>
                    Inr [''text'' \<mapsto> ''Highest FlowRate '' @ format_float False 2 (FlowRate row) @
                           '' at Bay '' @ str_cell (BayCode row) @
                           '' for Shipment '' @ str_cell (ShipmentCode row) @ ''.'']))
         else if str_in ''count'' q \<and> (str_in ''shipments'' q \<or> str_in ''shipment'' q) then
           (let cnt = nunique (map ShipmentID df)
            in Inr [''text'' \<mapsto> ''Unique shipments: '' @ show_nat cnt])
         else Inr [''text'' \<mapsto> ''I could not answer with built-in rules. Trying AI analysis...''])"

section \<open>Daily aggregation\<close>

text \<open>
  The columns a chart can take: the value column is one of the numeric columns, the date
  column one of the datetime columns.
\<close>

datatype numeric_column = Col_GrossQuantity | Col_FlowRate

datatype datetime_column = Col_ExitTime | Col_ScheduledDate | Col_CreatedTime

fun numeric_name :: "numeric_column \<Rightarrow> string" where
  "numeric_name Col_GrossQuantity = ''GrossQuantity''"
| "numeric_name Col_FlowRate = ''FlowRate''"

fun numeric_cell :: "numeric_column \<Rightarrow> row \<Rightarrow> rat option" where
  "numeric_cell Col_GrossQuantity r = GrossQuantity r"
| "numeric_cell Col_FlowRate r = FlowRate r"

fun datetime_cell :: "datetime_column \<Rightarrow> row \<Rightarrow> int option" where
  "datetime_cell Col_ExitTime r = ExitTime r"
| "datetime_cell Col_ScheduledDate r = ScheduledDate r"
| "datetime_cell Col_CreatedTime r = CreatedTime r"

text \<open>The calendar day of a timestamp: whole days since the epoch, rounded down.\<close>

definition nanos_per_day :: int where
  "nanos_per_day = 86400000000000"

definition day_of :: "int \<Rightarrow> int" where
  "day_of t = t div nanos_per_day"

text \<open>\<open>df[[date_col, value_col]].dropna()\<close>: the rows where both cells are present.\<close>

fun dropna :: "(int option \<times> rat option) list \<Rightarrow> (int \<times> rat) list" where
  "dropna [] = []"
| "dropna ((Some t, Some v) # rs) = (t, v) # dropna rs"
| "dropna (r # rs) = dropna rs"

text \<open>
  \<open>.set_index(date_col).sort_index()\<close>: the rows in ascending order of time. Rows with
  equal times keep their order here; the sums below do not depend on it.
\<close>

definition sort_index :: "(int \<times> rat) list \<Rightarrow> (int \<times> rat) list" where
  "sort_index xs = sort_key fst xs"

text \<open>
  \<open>.resample("D").sum()\<close> on a frame sorted by time: one bin for every calendar day from
  the day of the first row to the day of the last row, each holding the sum of the rows
  that fall on it.
\<close>

definition resample_D_sum :: "(int \<times> rat) list \<Rightarrow> (int \<times> rat) list" where
  "resample_D_sum xs =
     (case xs of
        [] \<Rightarrow> []
      | x # rest \<Rightarrow>
          map (\<lambda>d. (d, sum_list (map snd (filter (\<lambda>p. day_of (fst p) = d) xs))))
            [day_of (fst x) .. day_of (fst (last xs))])"

definition valid_rows :: "dataframe \<Rightarrow> datetime_column \<Rightarrow> numeric_column \<Rightarrow> (int \<times> rat) list" where
  "valid_rows df date_col value_col =
     dropna (map (\<lambda>r. (datetime_cell date_col r, numeric_cell value_col r)) df)"

definition daily_aggregate :: "dataframe \<Rightarrow> datetime_column \<Rightarrow> numeric_column \<Rightarrow> (int \<times> rat) list" where
  "daily_aggregate df date_col value_col =
     resample_D_sum (sort_index (valid_rows df date_col value_col))"

text \<open>The calendar days that occur among the valid rows, one entry per row.\<close>

definition present_days :: "dataframe \<Rightarrow> datetime_column \<Rightarrow> numeric_column \<Rightarrow> int list" where
  "present_days df date_col value_col = map (\<lambda>p. day_of (fst p)) (valid_rows df date_col value_col)"

section \<open>External collaborators\<close>

text \<open>
  A figure handed to the chart sink: the line chart of the trend analyzer with its title,
  axis labels and points, or the plot the forecasting model draws of its forecast.
\<close>

datatype figure =
    Line_plot string string string "(int \<times> rat) list"
  | Model_plot "(int \<times> rat) list"

text \<open>What \<open>agent.invoke\<close> returns: a dict with an \<open>output\<close> entry, or anything else; each as \<open>str\<close> prints it.\<close>

datatype agent_result = Output_dict string | Other_result string

text \<open>\<open>read_csv\<close> gives the header and the rows (cells as the coercions leave them).\<close>

record raw_frame =
  columns :: "string list"
  rows :: "row list"

text \<open>
  Everything the program reaches outside itself: the API key of the environment, the
  language-model agent, the forecasting model (fit and predict; plot), the random file id,
  the figure writer and the CSV reader. Each call returns its value or the exception it raises.
\<close>

record env =
  OPENAI_API_KEY :: string
  agent_invoke :: "dataframe \<Rightarrow> string \<Rightarrow> exception + agent_result"
  prophet_fit_predict :: "(int \<times> rat) list \<Rightarrow> int \<Rightarrow> exception + (int \<times> rat) list"
  prophet_plot :: "(int \<times> rat) list \<Rightarrow> exception + figure"
  uuid4_hex :: string
  savefig :: "string \<Rightarrow> figure \<Rightarrow> exception option"
  read_csv :: "string \<Rightarrow> exception + raw_frame"

definition save_plot_return_url :: "env \<Rightarrow> figure \<Rightarrow> string \<Rightarrow> exception + string" where
  "save_plot_return_url env fig filename_prefix =
     (let file_id = filename_prefix @ ''_'' @ take 8 (uuid4_hex env) @ ''.png''
      in case savefig env file_id fig of
           Some e \<Rightarrow> Inl e
         | None \<Rightarrow> Inr (''/static/charts/'' @ file_id))"

section \<open>Trend analyzer\<close>

definition trend_chart :: "env \<Rightarrow> dataframe \<Rightarrow> numeric_column \<Rightarrow> datetime_column \<Rightarrow> exception + result" where
  "trend_chart env df value_col date_col =
     (let agg = daily_aggregate df date_col value_col
      in if agg = [] then Inr [''text'' \<mapsto> ''No data to plot'']
         else
           (let fig = Line_plot (''Daily '' @ numeric_name value_col @ '' trend'') ''Date''
                        (numeric_name value_col) agg
            in case save_plot_return_url env fig (''trend_'' @ numeric_name value_col) of
                 Inl e \<Rightarrow> Inl e
               | Inr url \<Rightarrow>
                   Inr [''text'' \<mapsto> ''Trend of '' @ numeric_name value_col @ '' over time.'',
                        ''imageUrl'' \<mapsto> url]))"

section \<open>Forecaster\<close>

text \<open>\<open>Series.mean()\<close>: NaN on an empty selection.\<close>

definition mean :: "rat list \<Rightarrow> rat option" where
  "mean ys = (if ys = [] then None else Some (sum_list ys / of_nat (length ys)))"

definition tail :: "nat \<Rightarrow> 'a list \<Rightarrow> 'a list" where
  "tail n ys = drop (length ys - n) ys"

definition head :: "nat \<Rightarrow> 'a list \<Rightarrow> 'a list" where
  "head n ys = take n ys"

text \<open>
  The textual summary (the lines after the plot is saved). A comparison with NaN is false,
  and NaN in the percentage makes the percentage NaN.
\<close>

definition forecast_summary :: "int \<Rightarrow> (int \<times> rat) list \<Rightarrow> string" where
  "forecast_summary ds_max forecast =
     (let last_hist = mean (tail 7 (map snd (filter (\<lambda>p. fst p \<le> ds_max) forecast)));
          next_fc = mean (head 7 (map snd (filter (\<lambda>p. ds_max < fst p) forecast)));
          trend = (case (next_fc, last_hist) of
                     (Some n, Some l) \<Rightarrow> if l < n then ''increase'' else ''decrease''
                   | _ \<Rightarrow> ''decrease'');
          pct = (case (next_fc, last_hist) of
                   (Some n, Some l) \<Rightarrow> Some ((n - l) / max \<bar>l\<bar> (1 / 1000000) * 100)
                 | _ \<Rightarrow> None)
      in ''Forecast suggests a '' @ trend @ '' of approximately '' @ format_float False 1 pct @
         ''% over the next period.'')"

text \<open>\<open>try: body except Exception as e: handler(e)\<close>.\<close>

definition try_except :: "exception + 'a \<Rightarrow> (exception \<Rightarrow> exception + 'a) \<Rightarrow> exception + 'a" where
  "try_except body handler = (case body of Inl e \<Rightarrow> handler e | Inr v \<Rightarrow> Inr v)"

definition forecast_gross_quantity :: "env \<Rightarrow> dataframe \<Rightarrow> int \<Rightarrow> exception + result" where
  "forecast_gross_quantity env df periods =
     (let series = daily_aggregate df Col_ExitTime Col_GrossQuantity
      in case series of
           [] \<Rightarrow> Inr [''text'' \<mapsto> ''No data available for forecasting'']
         | s # rest \<Rightarrow>
             try_except
               (case prophet_fit_predict env series periods of
                  Inl e \<Rightarrow> Inl e
                | Inr forecast \<Rightarrow>
                   (case prophet_plot env forecast of
                      Inl e \<Rightarrow> Inl e
                    | Inr fig \<Rightarrow>
                       (case save_plot_return_url env fig ''forecast_gross_quantity'' of
                          Inl e \<Rightarrow> Inl e
                        | Inr url \<Rightarrow>
                            Inr [''text'' \<mapsto> forecast_summary (fold max (map fst rest) (fst s)) forecast,
                                 ''imageUrl'' \<mapsto> url])))
               (\<lambda>e. Inr [''text'' \<mapsto> ''Forecasting failed: '' @ str_of_exception e]))"

section \<open>Fallback responder\<close>

text \<open>
  In the handler, the dict display \<open>{"text": ..., **answer_with_rules(df, query)}\<close> builds
  the failure entry first and then adds the entries of the rule result; an entry added
  later replaces an earlier one with the same key.
\<close>

definition ai_dataframe_answer :: "env \<Rightarrow> dataframe \<Rightarrow> string \<Rightarrow> exception + result" where
  "ai_dataframe_answer env df query =
     (if OPENAI_API_KEY env = [] then answer_with_rules df query
      else
        try_except
          (case agent_invoke env df query of
             Inl e \<Rightarrow> Inl e
           | Inr (Output_dict out) \<Rightarrow> Inr [''text'' \<mapsto> take 4000 out]
           | Inr (Other_result s) \<Rightarrow> Inr [''text'' \<mapsto> take 4000 s])
          (\<lambda>e. case answer_with_rules df query of
                 Inl e' \<Rightarrow> Inl e'
               | Inr rules \<Rightarrow>
                   Inr ([''text'' \<mapsto> ''AI analysis failed: '' @ str_of_exception e @
                                   ''. Falling back to rules.''] ++ rules)))"

section \<open>Routes\<close>

text \<open>
  How a request ends when it does not return: with the HTTPException the route raises
  (status code and detail), or with an exception no handler catches.
\<close>

datatype failure = HTTPException nat string | Unhandled exception

definition REQUIRED_COLUMNS :: "string list" where
  "REQUIRED_COLUMNS =
     [''GrossQuantity'', ''FlowRate'', ''ShipmentCompartmentID'', ''BaseProductID'',
      ''BaseProductCode'', ''ShipmentID'', ''ShipmentCode'', ''ExitTime'', ''BayCode'',
      ''ScheduledDate'', ''CreatedTime'']"

text \<open>How Python prints a list of column names.\<close>

fun join_names :: "string list \<Rightarrow> string" where
  "join_names [] = []"
| "join_names [c] = [CHR 0x27] @ c @ [CHR 0x27]"
| "join_names (c # cs) = [CHR 0x27] @ c @ [CHR 0x27] @ '', '' @ join_names cs"

definition repr_names :: "string list \<Rightarrow> string" where
  "repr_names cs = ''['' @ join_names cs @ '']''"

definition parse_csv_to_dataframe :: "env \<Rightarrow> string \<Rightarrow> failure + dataframe" where
  "parse_csv_to_dataframe env file_bytes =
     (case read_csv env file_bytes of
        Inl e \<Rightarrow> Inl (Unhandled e)
      | Inr df \<Rightarrow>
          (let missing = filter (\<lambda>c. c \<notin> set (columns df)) REQUIRED_COLUMNS
           in if missing \<noteq> [] then
                Inl (HTTPException 400 (''Missing required columns: '' @ repr_names missing))
              else
                Inr (filter (\<lambda>r. GrossQuantity r \<noteq> None \<and> ShipmentID r \<noteq> None \<and> ExitTime r \<noteq> None)
                       (rows df))))"

text \<open>
  The route \<open>/upload\<close>, on the global \<open>DATAFRAME\<close>: it returns the response or the failure,
  and the global as the call leaves it. (The response also lists the column names.)
\<close>

record upload_response =
  message :: string
  row_count :: nat

definition upload_csv :: "env \<Rightarrow> dataframe option \<Rightarrow> string \<Rightarrow> (failure + upload_response) \<times> dataframe option" where
  "upload_csv env DATAFRAME file =
     (case parse_csv_to_dataframe env file of
        Inr df \<Rightarrow> (Inr \<lparr>message = ''CSV loaded'', row_count = length df\<rparr>, Some df)
      | Inl (HTTPException code detail) \<Rightarrow> (Inl (HTTPException code detail), DATAFRAME)
      | Inl (Unhandled e) \<Rightarrow>
          (Inl (HTTPException 400 (''Failed to parse CSV: '' @ str_of_exception e)), DATAFRAME))"

record AskRequest =
  question :: string
  periods :: "int option"

record AskResponse =
  resp_text :: string
  resp_imageUrl :: "string option"

text \<open>\<open>AskResponse(text=result.get("text", ""), imageUrl=result.get("imageUrl"))\<close>.\<close>

definition respond :: "exception + result \<Rightarrow> failure + AskResponse" where
  "respond outcome =
     (case outcome of
        Inl e \<Rightarrow> Inl (Unhandled e)
      | Inr result \<Rightarrow>
          Inr \<lparr>resp_text = (case result ''text'' of None \<Rightarrow> [] | Some t \<Rightarrow> t),
               resp_imageUrl = result ''imageUrl''\<rparr>)"

definition periods_or_default :: "int option \<Rightarrow> int" where
  "periods_or_default p = (case p of None \<Rightarrow> 14 | Some n \<Rightarrow> if n = 0 then 14 else n)"

definition ask :: "env \<Rightarrow> dataframe option \<Rightarrow> AskRequest \<Rightarrow> failure + AskResponse" where
  "ask env DATAFRAME req =
     (case DATAFRAME of
        None \<Rightarrow> Inl (HTTPException 400 ''No dataset loaded. Upload a CSV first.'')
      | Some df \<Rightarrow>
          (let intent = classify_query_intent (question req)
           in if intent = ''forecast'' then
                respond (forecast_gross_quantity env df (periods_or_default (periods req)))
              else if intent = ''trend'' then
                respond (trend_chart env df Col_GrossQuantity Col_ExitTime)
              else
                (case answer_with_rules df (question req) of
                   Inl e \<Rightarrow> Inl (Unhandled e)
                 | Inr result \<Rightarrow>
                     if startswith (case result ''text'' of None \<Rightarrow> [] | Some t \<Rightarrow> t) ''I could not answer''
                     then respond (ai_dataframe_answer env df (question req))
                     else respond (Inr result))))"

text \<open>
  The server as a state machine on the global: a request is an upload or a question, and a
  run of requests threads the global through them in order.
\<close>

datatype request = Upload string | Ask AskRequest

fun serve :: "env \<Rightarrow> dataframe option \<Rightarrow> request \<Rightarrow> dataframe option" where
  "serve env DATAFRAME (Upload file) = snd (upload_csv env DATAFRAME file)"
| "serve env DATAFRAME (Ask req) = DATAFRAME"

definition upload_succeeds :: "env \<Rightarrow> request \<Rightarrow> bool" where
  "upload_succeeds env r =
     (case r of
        Upload file \<Rightarrow> (case parse_csv_to_dataframe env file of Inl e \<Rightarrow> False | Inr df \<Rightarrow> True)
      | Ask req \<Rightarrow> False)"

section \<open>Example data\<close>

definition shipment :: "rat \<Rightarrow> rat option \<Rightarrow> string \<Rightarrow> string \<Rightarrow> int \<Rightarrow> row" where
  "shipment g f sid bay t =
     \<lparr>GrossQuantity = Some g, FlowRate = f, ShipmentCompartmentID = None, BaseProductID = None,
      BaseProductCode = None, ShipmentID = Some sid, ShipmentCode = Some (''C-'' @ sid),
      ExitTime = Some t, BayCode = Some bay, ScheduledDate = None, CreatedTime = None\<rparr>"

text \<open>Three shipments: one on day 0, two on day 2, the last two with the same flow rate.\<close>

definition example_df :: dataframe where
  "example_df =
     [shipment 10 (Some 5) ''S1'' ''B1'' 0,
      shipment 20 (Some 7) ''S2'' ''B2'' (2 * nanos_per_day + 5),
      shipment 30 (Some 7) ''S1'' ''B3'' (2 * nanos_per_day + 9)]"

text \<open>A dataset that passes ingestion and has no flow rate at all.\<close>

definition null_flow_df :: dataframe where
  "null_flow_df = [shipment 10 None ''S1'' ''B1'' 0]"

text \<open>
  An environment with no API key, an agent that cannot be reached, a forecasting model that
  refuses the history, and a chart sink that works.
\<close>

definition offline_env :: env where
  "offline_env =
     \<lparr>OPENAI_API_KEY = [],
      agent_invoke = (\<lambda>df q. Inl (Exception ''connection refused'')),
      prophet_fit_predict = (\<lambda>series p. Inl (Exception ''Dataframe has less than 2 non-NaN rows.'')),
      prophet_plot = (\<lambda>forecast. Inr (Model_plot forecast)),
      uuid4_hex = ''0123456789abcdef0123456789abcdef'',
      savefig = (\<lambda>file_id fig. None),
      read_csv = (\<lambda>bytes. Inl (Exception ''No columns to parse from file''))\<rparr>"

text \<open>
  The same environment with a forecasting model that predicts ten times the day number for
  every day from the first day of the history to \<open>p\<close> days after its last day.
\<close>

definition growing_env :: env where
  "growing_env = offline_env
     \<lparr>prophet_fit_predict :=
        (\<lambda>series p. Inr (map (\<lambda>d. (d, of_int d * 10)) [fst (hd series) .. fst (last series) + p]))\<rparr>"

text \<open>An environment with an API key whose agent cannot be reached.\<close>

definition failing_agent_env :: env where
  "failing_agent_env = offline_env\<lparr>OPENAI_API_KEY := ''sk-test''\<rparr>"

text \<open>An environment whose CSV reader accepts the bytes \<open>good\<close> and nothing else.\<close>

definition csv_env :: env where
  "csv_env = offline_env
     \<lparr>read_csv := (\<lambda>bytes. if bytes = ''good'' then Inr \<lparr>columns = REQUIRED_COLUMNS, rows = example_df\<rparr>
                           else Inl (Exception ''No columns to parse from file''))\<rparr>"

text \<open>
  An environment whose chart sink accepts one figure only: the daily GrossQuantity trend of
  the example data.
\<close>

definition strict_sink_env :: env where
  "strict_sink_env = offline_env
     \<lparr>savefig := (\<lambda>file_id fig.
         if fig = Line_plot ''Daily GrossQuantity trend'' ''Date'' ''GrossQuantity'' [(0, 10), (1, 0), (2, 50)]
         then None else Some (Exception ''unexpected figure''))\<rparr>"

section \<open>Strings and numbers: basic facts\<close>

lemma startswith_prefix: "startswith s p = prefix p s"
  by (induction s p rule: startswith.induct) auto

lemma str_in_sublist: "str_in k q = sublist k q"
  by (induction q) (auto simp: startswith_prefix sublist_Cons_right)

lemma digit_val_digit_char: "d < 10 \<Longrightarrow> digit_val (digit_char d) = d"
proof -
  assume "d < 10"
  then have "d \<in> {0,1,2,3,4,5,6,7,8,9}" by auto
  then show ?thesis
    by (auto simp: digit_val_def digit_char_def)
qed

lemma digit_char_is_digit: "d < 10 \<Longrightarrow> digit_char d \<in> set ''0123456789''"
  unfolding digit_char_def by (rule nth_mem) simp

lemma read_nat_snoc: "read_nat (s @ [c]) = 10 * read_nat s + digit_val c"
  by (simp add: read_nat_def)

lemma read_nat_show_nat: "read_nat (show_nat n) = n"
proof (induction n rule: show_nat.induct)
  case (1 n)
  show ?case
  proof (cases "n < 10")
    case True
    then show ?thesis
      by (subst show_nat.simps) (simp add: read_nat_def digit_val_digit_char)
  next
    case False
    with 1 have "read_nat (show_nat (n div 10)) = n div 10" by simp
    with False show ?thesis
      by (subst show_nat.simps) (simp add: read_nat_snoc digit_val_digit_char)
  qed
qed

lemma show_nat_digits: "set (show_nat n) \<subseteq> set ''0123456789''"
proof (induction n rule: show_nat.induct)
  case (1 n)
  show ?case
  proof (cases "n < 10")
    case True
    then show ?thesis
      using digit_char_is_digit [of n] by (subst show_nat.simps) simp
  next
    case False
    with 1 have "set (show_nat (n div 10)) \<subseteq> set ''0123456789''" by simp
    moreover have "digit_char (n mod 10) \<in> set ''0123456789''"
      by (rule digit_char_is_digit) simp
    ultimately show ?thesis using False
      by (subst show_nat.simps) simp
  qed
qed

lemma length_show_nat: "0 < k \<Longrightarrow> n < 10 ^ k \<Longrightarrow> length (show_nat n) \<le> k"
proof (induction n arbitrary: k rule: show_nat.induct)
  case (1 n)
  show ?case
  proof (cases "n < 10")
    case True
    with 1(2) show ?thesis by (subst show_nat.simps) simp
  next
    case False
    with 1(3) have "1 < k"
      by (metis One_nat_def Suc_lessI 1(2) not_less power_one_right)
    then obtain k' where k: "k = Suc k'" "0 < k'" by (cases k) auto
    with 1(3) have "n div 10 < 10 ^ k'"
      by (simp add: less_mult_imp_div_less mult.commute)
    with 1(1) False k have "length (show_nat (n div 10)) \<le> k'" by simp
    with False k show ?thesis by (subst show_nat.simps) simp
  qed
qed

lemma read_nat_append: "read_nat (s @ t) = read_nat s * 10 ^ length t + read_nat t"
proof (induction t rule: rev_induct)
  case Nil
  show ?case by (simp add: read_nat_def)
next
  case (snoc c t)
  have "read_nat (s @ t @ [c]) = 10 * read_nat (s @ t) + digit_val c"
    using read_nat_snoc [of "s @ t" c] by simp
  with snoc show ?case by (simp add: read_nat_snoc algebra_simps)
qed

lemma read_nat_zeros: "read_nat (replicate k CHR ''0'') = 0"
proof (induction k)
  case 0
  show ?case by (simp add: read_nat_def)
next
  case (Suc k)
  have "replicate (Suc k) CHR ''0'' = replicate k CHR ''0'' @ ''0''"
    by (simp add: replicate_append_same)
  with Suc show ?case
    by (simp only: read_nat_snoc) (simp add: digit_val_def)
qed

lemma read_nat_zfill: "read_nat (zfill w s) = read_nat s"
  by (simp add: zfill_def read_nat_append read_nat_zeros)

lemma length_zfill: "length s \<le> w \<Longrightarrow> length (zfill w s) = w"
  by (simp add: zfill_def)

lemma zfill_digits: "set s \<subseteq> set ''0123456789'' \<Longrightarrow> set (zfill w s) \<subseteq> set ''0123456789''"
  by (auto simp: zfill_def)

lemma round_half_even_near: "\<bar>of_int (round_half_even x) - x\<bar> \<le> 1 / 2"
proof -
  have "of_int \<lfloor>x\<rfloor> \<le> x" and "x < of_int \<lfloor>x\<rfloor> + 1"
    by linarith+
  then show ?thesis
    unfolding round_half_even_def Let_def by (simp add: abs_le_iff)
qed

lemma round_half_even_nonneg: "0 \<le> x \<Longrightarrow> 0 \<le> round_half_even x"
  unfolding round_half_even_def Let_def by auto

text \<open>
  What a fixed-point text looks like: an optional minus sign, the integer digits (grouped
  or not), a point, and exactly \<open>prec\<close> fraction digits; read without the point, the digits
  are the integer nearest to the magnitude scaled by \<open>10 ^ prec\<close>.
\<close>

lemma format_f_shape:
  assumes "0 < prec"
  shows "\<exists>ip fp. format_f grouping prec x =
            (if x < 0 then ''-'' else []) @ (if grouping then group3 ip else ip) @ ''.'' @ fp
          \<and> length fp = prec \<and> set (ip @ fp) \<subseteq> set ''0123456789''
          \<and> \<bar>of_nat (read_nat (ip @ fp)) - \<bar>x\<bar> * 10 ^ prec\<bar> \<le> 1 / 2"
proof -
  define n where "n = nat (round_half_even (\<bar>x\<bar> * 10 ^ prec))"
  define ip where "ip = show_nat (n div 10 ^ prec)"
  define fp where "fp = zfill prec (show_nat (n mod 10 ^ prec))"
  have fmt: "format_f grouping prec x =
      (if x < 0 then ''-'' else []) @ (if grouping then group3 ip else ip) @ ''.'' @ fp"
    using assms by (simp add: format_f_def Let_def n_def ip_def fp_def)
  have "n mod 10 ^ prec < 10 ^ prec" by simp
  then have "length (show_nat (n mod 10 ^ prec)) \<le> prec"
    using assms by (intro length_show_nat)
  then have len: "length fp = prec"
    by (simp add: fp_def length_zfill)
  have digits: "set (ip @ fp) \<subseteq> set ''0123456789''"
    using show_nat_digits [of "n div 10 ^ prec"] zfill_digits [OF show_nat_digits, of prec "n mod 10 ^ prec"]
    unfolding ip_def fp_def by simp
  have "read_nat (ip @ fp) = (n div 10 ^ prec) * 10 ^ prec + n mod 10 ^ prec"
    by (simp add: read_nat_append len) (simp add: ip_def fp_def read_nat_zfill read_nat_show_nat)
  then have rd: "read_nat (ip @ fp) = n"
    using div_mult_mod_eq [of n "10 ^ prec"] by simp
  have "0 \<le> round_half_even (\<bar>x\<bar> * 10 ^ prec)"
    by (rule round_half_even_nonneg) simp
  then have "(of_nat n :: rat) = of_int (round_half_even (\<bar>x\<bar> * 10 ^ prec))"
    by (simp add: n_def)
  then have near: "\<bar>of_nat n - \<bar>x\<bar> * 10 ^ prec\<bar> \<le> 1 / 2"
    using round_half_even_near [of "\<bar>x\<bar> * 10 ^ prec"] by simp
  from fmt len digits rd near show ?thesis by metis
qed

section \<open>Intent classification: the keyword tiers\<close>

text \<open>
  Claim C4. The intent is a function of the question text alone (no dataset, no state, no
  external call enters it), defined for every text. On the lower-cased text: any of
  \<open>forecast\<close>, \<open>predict\<close>, \<open>projection\<close>, \<open>next \<close> gives \<open>forecast\<close>; otherwise any of
  \<open>trend\<close>, \<open>over time\<close>, \<open>time series\<close>, \<open>by day\<close>, \<open>by month\<close>, \<open>chart\<close>, \<open>plot\<close>,
  \<open>graph\<close> gives \<open>trend\<close>; otherwise \<open>analysis\<close>. The forecast tier wins over the trend
  tier: \<open>predict the trend\<close> is a forecast question, in any letter case.
\<close>

theorem classify_query_intent_tiers:
  "classify_query_intent query =
     (if sublist ''forecast'' (lower query) \<or> sublist ''predict'' (lower query) \<or>
         sublist ''projection'' (lower query) \<or> sublist ''next '' (lower query)
      then ''forecast''
      else if sublist ''trend'' (lower query) \<or> sublist ''over time'' (lower query) \<or>
         sublist ''time series'' (lower query) \<or> sublist ''by day'' (lower query) \<or>
         sublist ''by month'' (lower query) \<or> sublist ''chart'' (lower query) \<or>
         sublist ''plot'' (lower query) \<or> sublist ''graph'' (lower query)
      then ''trend''
      else ''analysis'')
   \<and> classify_query_intent ''predict the trend'' = ''forecast''
   \<and> classify_query_intent ''Predict the TREND'' = ''forecast''"
proof (intro conjI)
  show "classify_query_intent query =
     (if sublist ''forecast'' (lower query) \<or> sublist ''predict'' (lower query) \<or>
         sublist ''projection'' (lower query) \<or> sublist ''next '' (lower query)
      then ''forecast''
      else if sublist ''trend'' (lower query) \<or> sublist ''over time'' (lower query) \<or>
         sublist ''time series'' (lower query) \<or> sublist ''by day'' (lower query) \<or>
         sublist ''by month'' (lower query) \<or> sublist ''chart'' (lower query) \<or>
         sublist ''plot'' (lower query) \<or> sublist ''graph'' (lower query)
      then ''trend''
      else ''analysis'')"
    by (simp add: classify_query_intent_def Let_def str_in_sublist)
  show "classify_query_intent ''predict the trend'' = ''forecast''"
    by code_simp
  show "classify_query_intent ''Predict the TREND'' = ''forecast''"
    by code_simp
qed

section \<open>Rule engine: the total quantity\<close>




section \<open>Rule engine: the highest flow rate\<close>

lemma argmax_scan_None:
  "argmax_scan best i cs = None \<Longrightarrow> best = None \<and> list_all (\<lambda>c. c = None) cs"
  by (induction best i cs rule: argmax_scan.induct) (auto split: if_splits)

lemma argmax_scan_first_max:
  "argmax_scan best i cs = Some (j, b) \<Longrightarrow>
     (\<forall>v. Some v \<in> set cs \<longrightarrow> v \<le> b) \<and>
     (\<forall>j0 b0. best = Some (j0, b0) \<longrightarrow> b0 \<le> b) \<and>
     (best = Some (j, b) \<or>
      (\<exists>k. j = i + k \<and> k < length cs \<and> cs ! k = Some b \<and> Some b \<notin> set (take k cs) \<and>
           (\<forall>j0 b0. best = Some (j0, b0) \<longrightarrow> b0 < b)))"
proof (induction best i cs arbitrary: j b rule: argmax_scan.induct)
  case (1 best i)
  then show ?case by auto
next
  case (2 best i cs)
  from 2 have scan: "argmax_scan best (Suc i) cs = Some (j, b)" by simp
  note ih = "2.IH" [OF scan]
  from ih have mx: "\<forall>v. Some v \<in> set (None # cs) \<longrightarrow> v \<le> b" by auto
  from ih have ge: "\<forall>j0 b0. best = Some (j0, b0) \<longrightarrow> b0 \<le> b" by auto
  from ih consider (keep) "best = Some (j, b)"
    | (new) k where "j = Suc i + k" "k < length cs" "cs ! k = Some b" "Some b \<notin> set (take k cs)"
        "\<forall>j0 b0. best = Some (j0, b0) \<longrightarrow> b0 < b"
    by blast
  then show ?case
  proof cases
    case keep
    with mx ge show ?thesis by blast
  next
    case new
    then have "j = i + Suc k \<and> Suc k < length (None # cs) \<and> (None # cs) ! Suc k = Some b \<and>
        Some b \<notin> set (take (Suc k) (None # cs))"
      by simp
    with mx ge new(5) show ?thesis by blast
  qed
next
  case (3 i v cs)
  from 3 have scan: "argmax_scan (Some (i, v)) (Suc i) cs = Some (j, b)" by simp
  note ih = "3.IH" [OF scan]
  from ih have vb: "v \<le> b" by auto
  with ih have mx: "\<forall>w. Some w \<in> set (Some v # cs) \<longrightarrow> w \<le> b" by auto
  from ih consider (keep) "j = i" "b = v"
    | (new) k where "j = Suc i + k" "k < length cs" "cs ! k = Some b" "Some b \<notin> set (take k cs)" "v < b"
    by blast
  then show ?case
  proof cases
    case keep
    then have "j = i + 0 \<and> 0 < length (Some v # cs) \<and> (Some v # cs) ! 0 = Some b \<and>
        Some b \<notin> set (take 0 (Some v # cs))"
      by simp
    with mx show ?thesis by blast
  next
    case new
    then have "j = i + Suc k \<and> Suc k < length (Some v # cs) \<and> (Some v # cs) ! Suc k = Some b \<and>
        Some b \<notin> set (take (Suc k) (Some v # cs))"
      by simp
    with mx show ?thesis by blast
  qed
next
  case (4 j0 b0 i v cs)
  let ?best = "if b0 < v then Some (i, v) else Some (j0, b0)"
  from 4 have scan: "argmax_scan ?best (Suc i) cs = Some (j, b)" by simp
  note ih = "4.IH" [OF scan]
  show ?case
  proof (cases "b0 < v")
    case True
    with ih have vb: "v \<le> b" by auto
    with True have b0b: "b0 < b" by simp
    from vb ih have mx: "\<forall>w. Some w \<in> set (Some v # cs) \<longrightarrow> w \<le> b" by auto
    from ih True consider (keep) "j = i" "b = v"
      | (new) k where "j = Suc i + k" "k < length cs" "cs ! k = Some b" "Some b \<notin> set (take k cs)" "v < b"
      by auto
    then show ?thesis
    proof cases
      case keep
      then have "j = i + 0 \<and> 0 < length (Some v # cs) \<and> (Some v # cs) ! 0 = Some b \<and>
          Some b \<notin> set (take 0 (Some v # cs))"
        by simp
      with mx b0b show ?thesis by (metis Pair_inject less_imp_le option.inject)
    next
      case new
      then have "j = i + Suc k \<and> Suc k < length (Some v # cs) \<and> (Some v # cs) ! Suc k = Some b \<and>
          Some b \<notin> set (take (Suc k) (Some v # cs))"
        by simp
      with mx b0b show ?thesis by (metis Pair_inject less_imp_le option.inject)
    qed
  next
    case False
    with ih have b0b: "b0 \<le> b" by auto
    with False have vb: "v \<le> b" by simp
    from vb ih have mx: "\<forall>w. Some w \<in> set (Some v # cs) \<longrightarrow> w \<le> b" by auto
    from ih False consider (keep) "j = j0" "b = b0"
      | (new) k where "j = Suc i + k" "k < length cs" "cs ! k = Some b" "Some b \<notin> set (take k cs)" "b0 < b"
      by auto
    then show ?thesis
    proof cases
      case keep
      with mx show ?thesis by auto
    next
      case new
      with False have "v < b" by simp
      with new have "j = i + Suc k \<and> Suc k < length (Some v # cs) \<and> (Some v # cs) ! Suc k = Some b \<and>
          Some b \<notin> set (take (Suc k) (Some v # cs))"
        by simp
      with mx new(5) show ?thesis by (metis Pair_inject less_imp_le option.inject)
    qed
  qed
qed

lemma idxmax_first_max:
  assumes "list_ex (\<lambda>c. c \<noteq> None) col"
  shows "\<exists>j b. idxmax col = Inr j \<and> j < length col \<and> col ! j = Some b \<and>
           (\<forall>v. Some v \<in> set col \<longrightarrow> v \<le> b) \<and> Some b \<notin> set (take j col)"
proof (cases "argmax_scan None 0 col")
  case None
  from argmax_scan_None [OF None] assms show ?thesis
    by (auto simp: list_all_iff list_ex_iff)
next
  case (Some p)
  obtain j b where p: "p = (j, b)" by (cases p)
  from argmax_scan_first_max [OF Some [unfolded p]] Some p show ?thesis
    by (auto simp: idxmax_def)
qed

lemma idxmax_all_null:
  "list_all (\<lambda>c. c = None) col \<Longrightarrow> idxmax col = Inl (Exception ''attempt to get argmax of an empty sequence'')"
proof -
  assume a: "list_all (\<lambda>c. c = None) col"
  have "argmax_scan best i col = best" for best i
    using a by (induction best i col rule: argmax_scan.induct) auto
  then show ?thesis by (simp add: idxmax_def)
qed

text \<open>
  Claim C5, as amended. When the dataset has at least one non-null FlowRate and the
  lower-cased question contains \<open>highest\<close> and \<open>flow\<close> (or \<open>flowrate\<close>) but not both \<open>total\<close>
  and \<open>quantity\<close>, the rule engine reports the row \<open>i\<close> whose FlowRate \<open>m\<close> is the largest
  non-null FlowRate of the dataset and which is the first row, in dataset order, to hold it:
  the text gives \<open>m\<close> with two decimals and the BayCode and ShipmentCode of row \<open>i\<close>.
\<close>

theorem highest_flow_rule:
  assumes "sublist ''highest'' (lower query)"
    and "sublist ''flow'' (lower query) \<or> sublist ''flowrate'' (lower query)"
    and "\<not> (sublist ''total'' (lower query) \<and> sublist ''quantity'' (lower query))"
    and "list_ex (\<lambda>r. FlowRate r \<noteq> None) df"
  shows "\<exists>i m. i < length df \<and> FlowRate (df ! i) = Some m
           \<and> (\<forall>r v. r \<in> set df \<and> FlowRate r = Some v \<longrightarrow> v \<le> m)
           \<and> (\<forall>k. k < i \<longrightarrow> FlowRate (df ! k) \<noteq> Some m)
           \<and> answer_with_rules df query =
               Inr [''text'' \<mapsto> ''Highest FlowRate '' @ format_f False 2 m @
                      '' at Bay '' @ str_cell (BayCode (df ! i)) @
                      '' for Shipment '' @ str_cell (ShipmentCode (df ! i)) @ ''.'']"
proof -
  from assms(4) have "list_ex (\<lambda>c. c \<noteq> None) (map FlowRate df)"
    by (simp add: list_ex_iff)
  from idxmax_first_max [OF this] obtain j b where jb:
    "idxmax (map FlowRate df) = Inr j" "j < length df" "FlowRate (df ! j) = Some b"
    "\<forall>v. Some v \<in> set (map FlowRate df) \<longrightarrow> v \<le> b"
    "Some b \<notin> set (take j (map FlowRate df))"
    by auto
  from jb(4) have mx: "\<forall>r v. r \<in> set df \<and> FlowRate r = Some v \<longrightarrow> v \<le> b"
    by (metis image_eqI set_map)
  have first: "\<forall>k. k < j \<longrightarrow> FlowRate (df ! k) \<noteq> Some b"
  proof (intro allI impI)
    fix k assume k: "k < j"
    with jb(2) have "take j (map FlowRate df) ! k = FlowRate (df ! k)" by simp
    moreover from k jb(2) have "k < length (take j (map FlowRate df))" by simp
    ultimately have "FlowRate (df ! k) \<in> set (take j (map FlowRate df))"
      by (metis nth_mem)
    with jb(5) show "FlowRate (df ! k) \<noteq> Some b" by auto
  qed
  have "answer_with_rules df query =
      Inr [''text'' \<mapsto> ''Highest FlowRate '' @ format_f False 2 b @
             '' at Bay '' @ str_cell (BayCode (df ! j)) @
             '' for Shipment '' @ str_cell (ShipmentCode (df ! j)) @ ''.'']"
    using assms(1-3) jb(1-3)
    by (auto simp: answer_with_rules_def Let_def str_in_sublist loc_def format_float_def)
  with jb(2,3) mx first show ?thesis by blast
qed

text \<open>On the example data rows 1 and 2 tie at 7; row 1, the earlier one, is reported.\<close>

theorem highest_flow_rule_witness:
  "answer_with_rules example_df ''Which bay had the HIGHEST flow?'' =
     Inr [''text'' \<mapsto> ''Highest FlowRate 7.00 at Bay B2 for Shipment C-S2.'']"
proof -
  let ?q = "''Which bay had the HIGHEST flow?''"
  have h: "str_in ''highest'' (lower ?q)" by code_simp
  have f: "str_in ''flow'' (lower ?q)" by code_simp
  have t: "\<not> str_in ''total'' (lower ?q)" by code_simp
  have e: "list_ex (\<lambda>r. FlowRate r \<noteq> None) example_df" by code_simp
  from highest_flow_rule [of ?q example_df] h f t e
  obtain i m where im: "i < length example_df" "FlowRate (example_df ! i) = Some m"
    "\<forall>r v. r \<in> set example_df \<and> FlowRate r = Some v \<longrightarrow> v \<le> m"
    "\<forall>k. k < i \<longrightarrow> FlowRate (example_df ! k) \<noteq> Some m"
    "answer_with_rules example_df ?q =
       Inr [''text'' \<mapsto> ''Highest FlowRate '' @ format_f False 2 m @
              '' at Bay '' @ str_cell (BayCode (example_df ! i)) @
              '' for Shipment '' @ str_cell (ShipmentCode (example_df ! i)) @ ''.'']"
    unfolding str_in_sublist by blast
  from im(1) have "i = 0 \<or> i = 1 \<or> i = 2" by (auto simp: example_df_def)
  moreover have "i \<noteq> 0"
  proof
    assume "i = 0"
    with im(2) have "m = 5" by (simp add: example_df_def shipment_def)
    moreover have "example_df ! 1 \<in> set example_df" and "FlowRate (example_df ! 1) = Some 7"
      by (simp_all add: example_df_def shipment_def)
    with im(3) have "7 \<le> m" by blast
    ultimately show False by simp
  qed
  moreover have "i \<noteq> 2"
  proof
    assume i: "i = 2"
    with im(2) have "m = 7" by (simp add: example_df_def shipment_def)
    moreover from im(4) i have "FlowRate (example_df ! 1) \<noteq> Some m" by simp
    ultimately show False by (simp add: example_df_def shipment_def)
  qed
  ultimately have i: "i = 1" by blast
  with im(2) have m: "m = 7" by (simp add: example_df_def shipment_def)
  have v: "format_f False 2 7 = ''7.00''" by code_simp
  from im(5) show ?thesis
    unfolding i m v by (simp add: example_df_def shipment_def str_cell_def)
qed

text \<open>
  The claim as first stated, for every question with \<open>highest\<close> and \<open>flow\<close>, fails on a
  question that also has \<open>total\<close> and \<open>quantity\<close>: the total rule comes first and answers it.
\<close>

theorem highest_flow_pattern_counterexample:
  "sublist ''highest'' (lower ''total quantity at the highest flow'')
   \<and> sublist ''flow'' (lower ''total quantity at the highest flow'')
   \<and> list_ex (\<lambda>r. FlowRate r \<noteq> None) example_df
   \<and> answer_with_rules example_df ''total quantity at the highest flow'' =
       Inr [''text'' \<mapsto> ''Total GrossQuantity: 60.00'']"
proof -
  let ?q = "''total quantity at the highest flow''"
  have h: "str_in ''highest'' (lower ?q)" by code_simp
  have f: "str_in ''flow'' (lower ?q)" by code_simp
  have t: "str_in ''total'' (lower ?q)" by code_simp
  have q: "str_in ''quantity'' (lower ?q)" by code_simp
  have e: "list_ex (\<lambda>r. FlowRate r \<noteq> None) example_df" by code_simp
  have v: "format_f True 2 (nansum (map GrossQuantity example_df)) = ''60.00''" by code_simp
  have "answer_with_rules example_df ?q = Inr [''text'' \<mapsto> ''Total GrossQuantity: 60.00'']"
    using t q by (simp add: answer_with_rules_def Let_def v)
  with h f e show ?thesis by (simp add: str_in_sublist)
qed

text \<open>
  Claim C8. A dataset whose rows all lack a FlowRate passes ingestion (only GrossQuantity,
  ShipmentID and ExitTime are required to be present). On it, and on the dataset with no
  rows, the highest-flow rule raises: \<open>answer_with_rules\<close> does not return, and the
  exception leaves \<open>ask\<close> uncaught. The other handlers test for the empty case
  (\<open>No data to plot\<close>, \<open>No data available for forecasting\<close>); this rule does not.
\<close>

theorem highest_flow_no_valid_rows_raises:
  "parse_csv_to_dataframe (offline_env\<lparr>read_csv := (\<lambda>bytes. Inr \<lparr>columns = REQUIRED_COLUMNS, rows = null_flow_df\<rparr>)\<rparr>) ''csv''
     = Inr null_flow_df
   \<and> answer_with_rules null_flow_df ''highest flow'' =
       Inl (Exception ''attempt to get argmax of an empty sequence'')
   \<and> ask offline_env (Some null_flow_df) \<lparr>question = ''highest flow'', periods = None\<rparr> =
       Inl (Unhandled (Exception ''attempt to get argmax of an empty sequence''))
   \<and> answer_with_rules [] ''highest flow'' =
       Inl (Exception ''attempt to get argmax of an empty sequence'')"
proof (intro conjI)
  show "parse_csv_to_dataframe (offline_env\<lparr>read_csv := (\<lambda>bytes. Inr \<lparr>columns = REQUIRED_COLUMNS, rows = null_flow_df\<rparr>)\<rparr>) ''csv''
     = Inr null_flow_df"
    by (simp add: parse_csv_to_dataframe_def null_flow_df_def shipment_def)
  have h: "str_in ''highest'' (lower ''highest flow'')" by code_simp
  have f: "str_in ''flow'' (lower ''highest flow'')" by code_simp
  have t: "\<not> str_in ''total'' (lower ''highest flow'')" by code_simp
  show a: "answer_with_rules null_flow_df ''highest flow'' =
       Inl (Exception ''attempt to get argmax of an empty sequence'')"
    using h f t
    by (simp add: answer_with_rules_def Let_def idxmax_def null_flow_df_def shipment_def)
  have c: "classify_query_intent ''highest flow'' = ''analysis''" by code_simp
  show "ask offline_env (Some null_flow_df) \<lparr>question = ''highest flow'', periods = None\<rparr> =
       Inl (Unhandled (Exception ''attempt to get argmax of an empty sequence''))"
    by (simp add: ask_def Let_def c a)
  show "answer_with_rules [] ''highest flow'' =
       Inl (Exception ''attempt to get argmax of an empty sequence'')"
    using h f t by (simp add: answer_with_rules_def Let_def idxmax_def)
qed

section \<open>Daily aggregation: range, sums and order\<close>

lemma valid_rows_filter:
  "valid_rows df date_col value_col =
     map (\<lambda>r. (the (datetime_cell date_col r), the (numeric_cell value_col r)))
       (filter (\<lambda>r. datetime_cell date_col r \<noteq> None \<and> numeric_cell value_col r \<noteq> None) df)"
proof (induction df)
  case Nil
  show ?case by (simp add: valid_rows_def)
next
  case (Cons r df)
  then show ?case
    by (cases "datetime_cell date_col r"; cases "numeric_cell value_col r")
       (simp_all add: valid_rows_def)
qed

lemma day_of_mono: "s \<le> t \<Longrightarrow> day_of s \<le> day_of t"
  by (simp add: day_of_def nanos_per_day_def zdiv_mono1)



lemma sorted_hd_least: "sorted (map f ys) \<Longrightarrow> p \<in> set ys \<Longrightarrow> f (hd ys) \<le> f p"
  by (cases ys) auto

lemma sorted_last_greatest: "sorted (map f ys) \<Longrightarrow> p \<in> set ys \<Longrightarrow> f p \<le> f (last ys)"
  by (induction ys) (auto split: if_splits)

lemma resample_D_sum_days:
  "xs \<noteq> [] \<Longrightarrow> map fst (resample_D_sum xs) = [day_of (fst (hd xs)) .. day_of (fst (last xs))]"
  by (cases xs) (simp_all add: resample_D_sum_def comp_def)


lemma first_day_is_Min:
  assumes "xs \<noteq> []"
  shows "day_of (fst (hd (sort_index xs))) = Min (set (map (\<lambda>p. day_of (fst p)) xs))"
proof -
  let ?ys = "sort_index xs"
  have ne: "?ys \<noteq> []" using assms by (metis length_sort sort_index_def length_0_conv)
  have set: "set ?ys = set xs" by (simp add: sort_index_def)
  have srt: "sorted (map fst ?ys)" by (simp add: sort_index_def)
  have mem: "hd ?ys \<in> set xs" using ne set by (metis hd_in_set)
  have "Min (set (map (\<lambda>p. day_of (fst p)) xs)) = day_of (fst (hd ?ys))"
  proof (rule Min_eqI)
    show "finite (set (map (\<lambda>p. day_of (fst p)) xs))" by simp
    show "day_of (fst (hd ?ys)) \<in> set (map (\<lambda>p. day_of (fst p)) xs)"
      using mem by auto
    fix d assume "d \<in> set (map (\<lambda>p. day_of (fst p)) xs)"
    then obtain p where p: "p \<in> set xs" "d = day_of (fst p)" by auto
    with set have "p \<in> set ?ys" by simp
    from sorted_hd_least [OF srt this] have "fst (hd ?ys) \<le> fst p" .
    with p show "day_of (fst (hd ?ys)) \<le> d" by (simp add: day_of_mono)
  qed
  then show ?thesis by simp
qed

lemma last_day_is_Max:
  assumes "xs \<noteq> []"
  shows "day_of (fst (last (sort_index xs))) = Max (set (map (\<lambda>p. day_of (fst p)) xs))"
proof -
  let ?ys = "sort_index xs"
  have ne: "?ys \<noteq> []" using assms by (metis length_sort sort_index_def length_0_conv)
  have set: "set ?ys = set xs" by (simp add: sort_index_def)
  have srt: "sorted (map fst ?ys)" by (simp add: sort_index_def)
  have mem: "last ?ys \<in> set xs" using ne set by (metis last_in_set)
  have "Max (set (map (\<lambda>p. day_of (fst p)) xs)) = day_of (fst (last ?ys))"
  proof (rule Max_eqI)
    show "finite (set (map (\<lambda>p. day_of (fst p)) xs))" by simp
    show "day_of (fst (last ?ys)) \<in> set (map (\<lambda>p. day_of (fst p)) xs)"
      using mem by auto
    fix d assume "d \<in> set (map (\<lambda>p. day_of (fst p)) xs)"
    then obtain p where p: "p \<in> set xs" "d = day_of (fst p)" by auto
    with set have "p \<in> set ?ys" by simp
    from sorted_last_greatest [OF srt this] have "fst p \<le> fst (last ?ys)" .
    with p show "d \<le> day_of (fst (last ?ys))" by (simp add: day_of_mono)
  qed
  then show ?thesis by simp
qed

lemma daily_aggregate_Nil:
  "(daily_aggregate df date_col value_col = []) = (valid_rows df date_col value_col = [])"
proof (cases "valid_rows df date_col value_col = []")
  case True
  then show ?thesis by (simp add: daily_aggregate_def sort_index_def resample_D_sum_def)
next
  case False
  let ?xs = "valid_rows df date_col value_col"
  from False have ne: "sort_index ?xs \<noteq> []"
    by (metis length_sort sort_index_def length_0_conv)
  have "hd ?xs \<in> set ?xs" using False by simp
  then have mem: "day_of (fst (hd ?xs)) \<in> set (map (\<lambda>p. day_of (fst p)) ?xs)"
    by auto
  have "Min (set (map (\<lambda>p. day_of (fst p)) ?xs)) \<le> day_of (fst (hd ?xs))"
    by (rule Min_le [OF _ mem]) simp
  moreover have "day_of (fst (hd ?xs)) \<le> Max (set (map (\<lambda>p. day_of (fst p)) ?xs))"
    by (rule Max_ge [OF _ mem]) simp
  ultimately
  have "Min (set (map (\<lambda>p. day_of (fst p)) ?xs)) \<le> Max (set (map (\<lambda>p. day_of (fst p)) ?xs))"
    by simp
  then have "map fst (resample_D_sum (sort_index ?xs)) \<noteq> []"
    by (simp add: resample_D_sum_days [OF ne] first_day_is_Min [OF False] last_day_is_Max [OF False])
  with False show ?thesis by (auto simp: daily_aggregate_def)
qed

lemma daily_aggregate_days:
  "valid_rows df date_col value_col \<noteq> [] \<Longrightarrow>
     map fst (daily_aggregate df date_col value_col) =
       [Min (set (present_days df date_col value_col)) .. Max (set (present_days df date_col value_col))]"
proof -
  assume v: "valid_rows df date_col value_col \<noteq> []"
  then have ne: "sort_index (valid_rows df date_col value_col) \<noteq> []"
    by (metis length_sort sort_index_def length_0_conv)
  show ?thesis
    unfolding daily_aggregate_def present_days_def
    by (simp only: resample_D_sum_days [OF ne] first_day_is_Min [OF v] last_day_is_Max [OF v])
qed





section \<open>Forecaster: results and summary\<close>

lemma drop_upto: "drop n [i..j] = [i + int n..j]"
proof (induction n arbitrary: i)
  case 0
  show ?case by simp
next
  case (Suc n)
  show ?case
  proof (cases "i \<le> j")
    case True
    then have "drop (Suc n) [i..j] = drop n [i + 1..j]" by (simp add: upto_rec1)
    also have "\<dots> = [i + 1 + int n..j]" by (rule Suc.IH)
    also have "i + 1 + int n = i + int (Suc n)" by simp
    finally show ?thesis .
  next
    case False
    then show ?thesis by simp
  qed
qed

lemma take_upto: "take n [i..j] = [i..min j (i + int n - 1)]"
proof (induction n arbitrary: i)
  case 0
  show ?case by simp
next
  case (Suc n)
  show ?case
  proof (cases "i \<le> j")
    case True
    then have "take (Suc n) [i..j] = i # take n [i + 1..j]" by (simp add: upto_rec1)
    also have "\<dots> = i # [i + 1..min j (i + 1 + int n - 1)]" by (simp only: Suc.IH)
    also have "\<dots> = [i..min j (i + int (Suc n) - 1)]"
      using True by (simp add: upto_rec1 [of i])
    finally show ?thesis .
  next
    case False
    then show ?thesis by simp
  qed
qed

lemma filter_history:
  assumes "lo \<le> hi" and "0 \<le> p"
  shows "filter (\<lambda>q. fst q \<le> hi) (map (\<lambda>d. (d, yhat d)) [lo..hi + p]) = map (\<lambda>d. (d, yhat d)) [lo..hi]"
proof -
  have split: "[lo..hi + p] = [lo..hi] @ [hi + 1..hi + p]"
    using assms by (intro upto_split2) simp_all
  have a: "filter (\<lambda>d. d \<le> hi) [lo..hi] = [lo..hi]" by (rule filter_True) simp
  have b: "filter (\<lambda>d. d \<le> hi) [hi + 1..hi + p] = []" by (rule filter_False) simp
  show ?thesis unfolding split by (simp add: filter_map comp_def a b)
qed

lemma filter_future:
  assumes "lo \<le> hi" and "0 \<le> p"
  shows "filter (\<lambda>q. hi < fst q) (map (\<lambda>d. (d, yhat d)) [lo..hi + p]) = map (\<lambda>d. (d, yhat d)) [hi + 1..hi + p]"
proof -
  have split: "[lo..hi + p] = [lo..hi] @ [hi + 1..hi + p]"
    using assms by (intro upto_split2) simp_all
  have a: "filter (\<lambda>d. hi < d) [lo..hi] = []" by (rule filter_False) simp
  have b: "filter (\<lambda>d. hi < d) [hi + 1..hi + p] = [hi + 1..hi + p]" by (rule filter_True) simp
  show ?thesis unfolding split by (simp add: filter_map comp_def a b)
qed

lemma mean_upto:
  assumes "a \<le> b"
  shows "mean (map yhat [a..b]) = Some (sum yhat {a..b} / of_int (b - a + 1))"
proof -
  have "sum_list (map yhat [a..b]) = sum yhat {a..b}"
    by (simp add: sum_list_distinct_conv_sum_set)
  moreover have "(of_nat (length (map yhat [a..b])) :: rat) = of_int (b - a + 1)"
    using assms by simp
  moreover have "map yhat [a..b] \<noteq> []" using assms by simp
  ultimately show ?thesis by (simp add: mean_def)
qed

lemma last_hist_mean:
  assumes "lo \<le> hi" and "0 \<le> p"
  shows "mean (tail 7 (map snd (filter (\<lambda>q. fst q \<le> hi) (map (\<lambda>d. (d, yhat d)) [lo..hi + p])))) =
         Some (sum yhat {max lo (hi - 6)..hi} / of_int (min 7 (hi - lo + 1)))"
proof -
  have "tail 7 (map snd (map (\<lambda>d. (d, yhat d)) [lo..hi])) = map yhat (drop (nat (hi - lo + 1) - 7) [lo..hi])"
    by (simp add: tail_def drop_map comp_def)
  also have "drop (nat (hi - lo + 1) - 7) [lo..hi] = [lo + int (nat (hi - lo + 1) - 7)..hi]"
    by (rule drop_upto)
  also have "lo + int (nat (hi - lo + 1) - 7) = max lo (hi - 6)"
    using assms by (auto simp: max_def)
  finally have t: "tail 7 (map snd (map (\<lambda>d. (d, yhat d)) [lo..hi])) = map yhat [max lo (hi - 6)..hi]" .
  have le: "max lo (hi - 6) \<le> hi" using assms by simp
  have n: "hi - max lo (hi - 6) + 1 = min 7 (hi - lo + 1)" by (auto simp: max_def min_def)
  show ?thesis
    unfolding filter_history [OF assms] t mean_upto [OF le] n ..
qed

lemma next_fc_mean:
  assumes "lo \<le> hi" and "1 \<le> p"
  shows "mean (head 7 (map snd (filter (\<lambda>q. hi < fst q) (map (\<lambda>d. (d, yhat d)) [lo..hi + p])))) =
         Some (sum yhat {hi + 1..hi + min 7 p} / of_int (min 7 p))"
proof -
  from assms have p0: "0 \<le> p" by simp
  have "head 7 (map snd (map (\<lambda>d. (d, yhat d)) [hi + 1..hi + p])) = map yhat (take 7 [hi + 1..hi + p])"
    by (simp add: head_def take_map comp_def)
  also have "take 7 [hi + 1..hi + p] = [hi + 1..min (hi + p) (hi + 1 + int 7 - 1)]"
    by (rule take_upto)
  also have "min (hi + p) (hi + 1 + int 7 - 1) = hi + min 7 p"
    by (auto simp: min_def)
  finally have t: "head 7 (map snd (map (\<lambda>d. (d, yhat d)) [hi + 1..hi + p])) = map yhat [hi + 1..hi + min 7 p]" .
  have le: "hi + 1 \<le> hi + min 7 p" using assms by simp
  have n: "hi + min 7 p - (hi + 1) + 1 = min 7 p" by simp
  show ?thesis
    unfolding filter_future [OF assms(1) p0] t mean_upto [OF le] n ..
qed

lemma forecast_summary_means:
  assumes "lo \<le> hi" and "1 \<le> p"
  shows "forecast_summary hi (map (\<lambda>d. (d, yhat d)) [lo..hi + p]) =
     ''Forecast suggests a '' @
       (if sum yhat {max lo (hi - 6)..hi} / of_int (min 7 (hi - lo + 1))
             < sum yhat {hi + 1..hi + min 7 p} / of_int (min 7 p)
        then ''increase'' else ''decrease'') @
     '' of approximately '' @
       format_f False 1
         ((sum yhat {hi + 1..hi + min 7 p} / of_int (min 7 p)
            - sum yhat {max lo (hi - 6)..hi} / of_int (min 7 (hi - lo + 1)))
          / max \<bar>sum yhat {max lo (hi - 6)..hi} / of_int (min 7 (hi - lo + 1))\<bar> (1 / 1000000) * 100) @
     ''% over the next period.''"
proof -
  from assms have p0: "0 \<le> p" by simp
  show ?thesis
    unfolding forecast_summary_def last_hist_mean [OF assms(1) p0] next_fc_mean [OF assms]
    by (simp add: Let_def format_float_def)
qed

lemma sum_upto_list: "sum f {a..b} = sum_list (map f [a..b])"
  by (simp add: sum_list_distinct_conv_sum_set)

lemma fold_max_upto:
  assumes "map fst (s # rest) = [lo..hi]"
  shows "fold max (map fst rest) (fst s) = hi"
proof -
  have "fold max (map fst rest) (fst s) = Max (set (map fst (s # rest)))"
    unfolding list.map by (rule Max.set_eq_fold [symmetric])
  also have "\<dots> = Max {lo..hi}" unfolding assms by simp
  also have "\<dots> = hi"
  proof -
    from assms have "[lo..hi] \<noteq> []" by (metis list.simps(3) list.map_disc_iff)
    then have "lo \<le> hi" by simp
    then show ?thesis by (intro Max_eqI) auto
  qed
  finally show ?thesis .
qed

text \<open>
  Claim C3. For every environment, dataset and horizon the forecaster returns a result with
  a \<open>text\<close> entry; it never ends with an exception. With no valid row (no row with both
  ExitTime and GrossQuantity) the result is the text \<open>No data available for forecasting\<close>
  alone. With valid rows, on one day or on many, a failure of the model (import, fit,
  predict), of its plot, or of saving the figure is turned into the text
  \<open>Forecasting failed: \<close> followed by the message of the exception, with no image entry.
\<close>

theorem forecaster_never_raises:
  "(\<exists>r t. forecast_gross_quantity env df horizon = Inr r \<and> r ''text'' = Some t)
   \<and> (valid_rows df Col_ExitTime Col_GrossQuantity = [] \<longrightarrow>
        forecast_gross_quantity env df horizon = Inr [''text'' \<mapsto> ''No data available for forecasting''])
   \<and> (\<forall>e. valid_rows df Col_ExitTime Col_GrossQuantity \<noteq> [] \<and>
         prophet_fit_predict env (daily_aggregate df Col_ExitTime Col_GrossQuantity) horizon = Inl e \<longrightarrow>
        forecast_gross_quantity env df horizon =
          Inr [''text'' \<mapsto> ''Forecasting failed: '' @ str_of_exception e])
   \<and> (\<forall>forecast e. valid_rows df Col_ExitTime Col_GrossQuantity \<noteq> [] \<and>
         prophet_fit_predict env (daily_aggregate df Col_ExitTime Col_GrossQuantity) horizon = Inr forecast \<and>
         prophet_plot env forecast = Inl e \<longrightarrow>
        forecast_gross_quantity env df horizon =
          Inr [''text'' \<mapsto> ''Forecasting failed: '' @ str_of_exception e])
   \<and> (\<forall>forecast fig e. valid_rows df Col_ExitTime Col_GrossQuantity \<noteq> [] \<and>
         prophet_fit_predict env (daily_aggregate df Col_ExitTime Col_GrossQuantity) horizon = Inr forecast \<and>
         prophet_plot env forecast = Inr fig \<and>
         savefig env (''forecast_gross_quantity_'' @ take 8 (uuid4_hex env) @ ''.png'') fig = Some e \<longrightarrow>
        forecast_gross_quantity env df horizon =
          Inr [''text'' \<mapsto> ''Forecasting failed: '' @ str_of_exception e])"
proof (cases "daily_aggregate df Col_ExitTime Col_GrossQuantity")
  case Nil
  then have "valid_rows df Col_ExitTime Col_GrossQuantity = []"
    by (simp add: daily_aggregate_Nil)
  with Nil show ?thesis
    by (simp add: forecast_gross_quantity_def)
next
  case (Cons s rest)
  then have v: "valid_rows df Col_ExitTime Col_GrossQuantity \<noteq> []"
    using daily_aggregate_Nil [of df Col_ExitTime Col_GrossQuantity] by simp
  have returns: "\<exists>r t. forecast_gross_quantity env df horizon = Inr r \<and> r ''text'' = Some t"
    using Cons
    by (simp add: forecast_gross_quantity_def try_except_def save_plot_return_url_def
          split: sum.splits option.splits)
  have fit: "forecast_gross_quantity env df horizon =
        Inr [''text'' \<mapsto> ''Forecasting failed: '' @ str_of_exception e]"
    if "prophet_fit_predict env (daily_aggregate df Col_ExitTime Col_GrossQuantity) horizon = Inl e" for e
    using that Cons by (simp add: forecast_gross_quantity_def try_except_def)
  have plot: "forecast_gross_quantity env df horizon =
        Inr [''text'' \<mapsto> ''Forecasting failed: '' @ str_of_exception e]"
    if "prophet_fit_predict env (daily_aggregate df Col_ExitTime Col_GrossQuantity) horizon = Inr forecast"
      and "prophet_plot env forecast = Inl e" for forecast e
    using that Cons by (simp add: forecast_gross_quantity_def try_except_def)
  have save: "forecast_gross_quantity env df horizon =
        Inr [''text'' \<mapsto> ''Forecasting failed: '' @ str_of_exception e]"
    if "prophet_fit_predict env (daily_aggregate df Col_ExitTime Col_GrossQuantity) horizon = Inr forecast"
      and "prophet_plot env forecast = Inr fig"
      and "savefig env (''forecast_gross_quantity_'' @ take 8 (uuid4_hex env) @ ''.png'') fig = Some e"
    for forecast fig e
    using that Cons
    by (simp add: forecast_gross_quantity_def try_except_def save_plot_return_url_def)
  from v returns fit plot save show ?thesis by blast
qed

text \<open>
  A dataset with a single valid day and a model that refuses a one-point history; and the
  empty dataset.
\<close>

theorem forecaster_never_raises_witness:
  "forecast_gross_quantity offline_env null_flow_df 14 =
     Inr [''text'' \<mapsto> ''Forecasting failed: Dataframe has less than 2 non-NaN rows.'']
   \<and> forecast_gross_quantity offline_env [] 14 =
     Inr [''text'' \<mapsto> ''No data available for forecasting'']"
proof -
  have v: "valid_rows null_flow_df Col_ExitTime Col_GrossQuantity \<noteq> []"
    by (simp add: valid_rows_def null_flow_df_def shipment_def)
  have f: "prophet_fit_predict offline_env (daily_aggregate null_flow_df Col_ExitTime Col_GrossQuantity) 14
      = Inl (Exception ''Dataframe has less than 2 non-NaN rows.'')"
    by (simp add: offline_env_def)
  have e: "valid_rows [] Col_ExitTime Col_GrossQuantity = []"
    by (simp add: valid_rows_def)
  from forecaster_never_raises [of offline_env null_flow_df 14] v f
  have "forecast_gross_quantity offline_env null_flow_df 14 =
     Inr [''text'' \<mapsto> ''Forecasting failed: '' @
            str_of_exception (Exception ''Dataframe has less than 2 non-NaN rows.'')]"
    by blast
  moreover from forecaster_never_raises [of offline_env "[]" 14] e
  have "forecast_gross_quantity offline_env [] 14 =
     Inr [''text'' \<mapsto> ''No data available for forecasting'']"
    by blast
  ultimately show ?thesis by simp
qed

text \<open>
  Claim C6. Let the history cover the days \<open>lo..hi\<close> and let the model predict \<open>yhat d\<close> for
  every day \<open>d\<close> from \<open>lo\<close> to \<open>hi + horizon\<close>, with a horizon of at least one day, and
  let plotting and saving succeed. Then \<open>lastHistMean\<close> is the mean prediction over the last
  7 days of the history (all of it when it is shorter), \<open>nextFcMean\<close> the mean prediction
  over the first 7 days after it (all \<open>horizon\<close> days when there are fewer), the direction
  is \<open>increase\<close> exactly when \<open>nextFcMean\<close> is greater and \<open>decrease\<close> otherwise, and the
  percentage is their difference over \<open>max |lastHistMean| 1e-6\<close>, times 100, printed with
  exactly one fraction digit.
\<close>

theorem forecast_summary_text:
  assumes valid: "valid_rows df Col_ExitTime Col_GrossQuantity \<noteq> []"
    and lo: "lo = Min (set (present_days df Col_ExitTime Col_GrossQuantity))"
    and hi: "hi = Max (set (present_days df Col_ExitTime Col_GrossQuantity))"
    and horizon: "1 \<le> horizon"
    and fit: "prophet_fit_predict env (daily_aggregate df Col_ExitTime Col_GrossQuantity) horizon =
                Inr (map (\<lambda>d. (d, yhat d)) [lo..hi + horizon])"
    and plot: "prophet_plot env (map (\<lambda>d. (d, yhat d)) [lo..hi + horizon]) = Inr fig"
    and save: "savefig env (''forecast_gross_quantity_'' @ take 8 (uuid4_hex env) @ ''.png'') fig = None"
    and last: "lastHistMean = sum yhat {max lo (hi - 6)..hi} / of_int (min 7 (hi - lo + 1))"
    and nxt: "nextFcMean = sum yhat {hi + 1..hi + min 7 horizon} / of_int (min 7 horizon)"
  shows "\<exists>ip fp.
     forecast_gross_quantity env df horizon =
       Inr [''text'' \<mapsto> ''Forecast suggests a '' @
              (if lastHistMean < nextFcMean then ''increase'' else ''decrease'') @
              '' of approximately '' @
              format_f False 1 ((nextFcMean - lastHistMean) / max \<bar>lastHistMean\<bar> (1 / 1000000) * 100) @
              ''% over the next period.'',
            ''imageUrl'' \<mapsto> ''/static/charts/forecast_gross_quantity_'' @ take 8 (uuid4_hex env) @ ''.png'']
     \<and> format_f False 1 ((nextFcMean - lastHistMean) / max \<bar>lastHistMean\<bar> (1 / 1000000) * 100) =
         (if (nextFcMean - lastHistMean) / max \<bar>lastHistMean\<bar> (1 / 1000000) * 100 < 0 then ''-'' else [])
           @ ip @ ''.'' @ fp
     \<and> length fp = 1 \<and> set (ip @ fp) \<subseteq> set ''0123456789''"
proof -
  let ?pct = "(nextFcMean - lastHistMean) / max \<bar>lastHistMean\<bar> (1 / 1000000) * 100"
  obtain s rest where series: "daily_aggregate df Col_ExitTime Col_GrossQuantity = s # rest"
    using valid daily_aggregate_Nil [of df Col_ExitTime Col_GrossQuantity]
    by (cases "daily_aggregate df Col_ExitTime Col_GrossQuantity") auto
  from daily_aggregate_days [OF valid] have days: "map fst (s # rest) = [lo..hi]"
    by (simp add: series lo hi)
  then have "[lo..hi] \<noteq> []" by (metis list.simps(3) list.map_disc_iff)
  then have lohi: "lo \<le> hi" by simp
  have mx: "fold max (map fst rest) (fst s) = hi" by (rule fold_max_upto [OF days])
  have ans: "forecast_gross_quantity env df horizon =
       Inr [''text'' \<mapsto> forecast_summary hi (map (\<lambda>d. (d, yhat d)) [lo..hi + horizon]),
            ''imageUrl'' \<mapsto> ''/static/charts/forecast_gross_quantity_'' @ take 8 (uuid4_hex env) @ ''.png'']"
    using fit plot save
    by (simp add: forecast_gross_quantity_def series try_except_def save_plot_return_url_def mx
          del: fold_simps)
  obtain ip fp where shape:
    "format_f False 1 ?pct = (if ?pct < 0 then ''-'' else []) @ ip @ ''.'' @ fp"
    "length fp = 1" "set (ip @ fp) \<subseteq> set ''0123456789''"
    using format_f_shape [of 1 False ?pct] by auto
  from ans shape show ?thesis
    unfolding forecast_summary_means [OF lohi horizon] last [symmetric] nxt [symmetric]
    by blast
qed

text \<open>
  The example data with the growing model and a horizon of 14: the history is days 0..2
  with mean prediction 10, the next seven days 3..9 have mean 60.
\<close>

theorem forecast_summary_text_witness:
  "forecast_gross_quantity growing_env example_df 14 =
     Inr [''text'' \<mapsto> ''Forecast suggests a increase of approximately 500.0% over the next period.'',
          ''imageUrl'' \<mapsto> ''/static/charts/forecast_gross_quantity_01234567.png'']"
proof -
  let ?yhat = "\<lambda>d. of_int d * (10 :: rat)"
  have v: "valid_rows example_df Col_ExitTime Col_GrossQuantity =
      [(0, 10), (2 * nanos_per_day + 5, 20), (2 * nanos_per_day + 9, 30)]"
    by (simp add: valid_rows_def example_df_def shipment_def)
  have p: "present_days example_df Col_ExitTime Col_GrossQuantity = [0, 2, 2]"
    unfolding present_days_def v by (simp add: day_of_def nanos_per_day_def)
  have lo: "(0 :: int) = Min (set (present_days example_df Col_ExitTime Col_GrossQuantity))"
    unfolding p by simp
  have hi: "(2 :: int) = Max (set (present_days example_df Col_ExitTime Col_GrossQuantity))"
    unfolding p by simp
  have agg: "daily_aggregate example_df Col_ExitTime Col_GrossQuantity = [(0, 10), (1, 0), (2, 50)]"
    by code_simp
  have fit: "prophet_fit_predict growing_env (daily_aggregate example_df Col_ExitTime Col_GrossQuantity) 14 =
      Inr (map (\<lambda>d. (d, ?yhat d)) [0..2 + 14])"
    unfolding agg by (simp add: growing_env_def offline_env_def)
  have plot: "prophet_plot growing_env (map (\<lambda>d. (d, ?yhat d)) [0..2 + 14]) =
      Inr (Model_plot (map (\<lambda>d. (d, ?yhat d)) [0..2 + 14]))"
    by (simp add: growing_env_def offline_env_def)
  have save: "savefig growing_env (''forecast_gross_quantity_'' @ take 8 (uuid4_hex growing_env) @ ''.png'')
      (Model_plot (map (\<lambda>d. (d, ?yhat d)) [0..2 + 14])) = None"
    by (simp add: growing_env_def offline_env_def)
  have u: "take 8 (uuid4_hex growing_env) = ''01234567''"
    by (simp add: growing_env_def offline_env_def)
  have s1: "sum ?yhat {max 0 (2 - 6)..2} / of_int (min 7 (2 - 0 + 1)) = 10"
    unfolding sum_upto_list by (simp add: upto_rec1)
  have s2: "sum ?yhat {2 + 1..2 + min 7 14} / of_int (min 7 14) = 60"
    unfolding sum_upto_list by (simp add: upto_rec1)
  have f: "format_f False 1 500 = ''500.0''" by code_simp
  from v have ne: "valid_rows example_df Col_ExitTime Col_GrossQuantity \<noteq> []" by simp
  have f': "format_f False (Suc 0) 500 = ''500.0''" using f by simp
  from forecast_summary_text [OF ne lo hi _ fit plot save refl refl]
  have "forecast_gross_quantity growing_env example_df 14 =
       Inr [''text'' \<mapsto> ''Forecast suggests a '' @
              (if (10 :: rat) < 60 then ''increase'' else ''decrease'') @
              '' of approximately '' @
              format_f False 1 ((60 - 10) / max \<bar>10\<bar> (1 / 1000000) * 100) @
              ''% over the next period.'',
            ''imageUrl'' \<mapsto> ''/static/charts/forecast_gross_quantity_'' @ ''01234567'' @ ''.png'']"
    unfolding s1 s2 u by fastforce
  then show ?thesis by (simp add: f')
qed

section \<open>Fallback responder: a failed agent call\<close>

lemma answer_with_rules_text_only:
  "answer_with_rules df query = Inr r \<Longrightarrow> \<exists>t. r = [''text'' \<mapsto> t]"
  by (auto simp: answer_with_rules_def Let_def split: if_splits sum.splits)

lemma agent_failure_message_dropped:
  assumes "OPENAI_API_KEY env \<noteq> []" and "agent_invoke env df query = Inl e"
  shows "ai_dataframe_answer env df query = answer_with_rules df query"
proof (cases "answer_with_rules df query")
  case (Inl e')
  with assms show ?thesis by (simp add: ai_dataframe_answer_def try_except_def)
next
  case (Inr r)
  from answer_with_rules_text_only [OF Inr] obtain t where "r = [''text'' \<mapsto> t]" ..
  with assms Inr show ?thesis by (simp add: ai_dataframe_answer_def try_except_def)
qed

lemma agent_answer_truncated:
  assumes "OPENAI_API_KEY env \<noteq> []" and "agent_invoke env df query = Inr a"
  shows "ai_dataframe_answer env df query =
     Inr [''text'' \<mapsto> take 4000 (case a of Output_dict out \<Rightarrow> out | Other_result s \<Rightarrow> s)]"
  using assms by (cases a) (simp_all add: ai_dataframe_answer_def try_except_def)

text \<open>
  Claim C7. With an API key set and an agent call that raises, the handler builds the entry
  \<open>text\<close> with the failure message and then adds the entries of the rule result, whose
  own \<open>text\<close> entry replaces it: the returned text is the rule text alone and says
  nothing of the failure. (The other half of the claim holds: a successful answer is cut
  to 4000 characters, see \<open>agent_answer_truncated\<close>.)
\<close>

theorem agent_failure_text_is_overwritten:
  "OPENAI_API_KEY failing_agent_env \<noteq> []
   \<and> agent_invoke failing_agent_env example_df ''hello'' = Inl (Exception ''connection refused'')
   \<and> ai_dataframe_answer failing_agent_env example_df ''hello'' =
       Inr [''text'' \<mapsto> ''I could not answer with built-in rules. Trying AI analysis...'']
   \<and> ask failing_agent_env (Some example_df) \<lparr>question = ''hello'', periods = None\<rparr> =
       Inr \<lparr>resp_text = ''I could not answer with built-in rules. Trying AI analysis...'',
            resp_imageUrl = None\<rparr>"
proof -
  have k: "OPENAI_API_KEY failing_agent_env \<noteq> []"
    by (simp add: failing_agent_env_def offline_env_def)
  have a: "agent_invoke failing_agent_env example_df ''hello'' = Inl (Exception ''connection refused'')"
    by (simp add: failing_agent_env_def offline_env_def)
  have q: "lower ''hello'' = ''hello''" by code_simp
  have r: "answer_with_rules example_df ''hello'' =
      Inr [''text'' \<mapsto> ''I could not answer with built-in rules. Trying AI analysis...'']"
    by (simp add: answer_with_rules_def Let_def q)
  have f: "ai_dataframe_answer failing_agent_env example_df ''hello'' =
      Inr [''text'' \<mapsto> ''I could not answer with built-in rules. Trying AI analysis...'']"
    using k a by (simp add: ai_dataframe_answer_def try_except_def r)
  have c: "classify_query_intent ''hello'' = ''analysis''" by code_simp
  have "ask failing_agent_env (Some example_df) \<lparr>question = ''hello'', periods = None\<rparr> =
       Inr \<lparr>resp_text = ''I could not answer with built-in rules. Trying AI analysis...'',
            resp_imageUrl = None\<rparr>"
    by (simp add: ask_def Let_def c r f respond_def)
  with k a f show ?thesis by simp
qed

section \<open>Routes: the dataset store\<close>

lemma serve_keeps_dataset: "\<exists>df. s = Some df \<Longrightarrow> \<exists>df. serve env s r = Some df"
  by (cases r) (auto simp: upload_csv_def split: sum.splits failure.splits)

lemma serve_successful_upload: "upload_succeeds env r \<Longrightarrow> \<exists>df. serve env s r = Some df"
  by (cases r) (auto simp: upload_succeeds_def upload_csv_def split: sum.splits)

lemma serve_failed_upload: "\<not> upload_succeeds env r \<Longrightarrow> serve env s r = s"
  by (cases r) (auto simp: upload_succeeds_def upload_csv_def split: sum.splits failure.splits)

lemma run_keeps_dataset: "\<exists>df. s = Some df \<Longrightarrow> \<exists>df. foldl (serve env) s rs = Some df"
proof (induction rs arbitrary: s)
  case Nil
  then show ?case by simp
next
  case (Cons r rs)
  from serve_keeps_dataset [OF Cons.prems] have "\<exists>df. serve env s r = Some df" .
  from Cons.IH [OF this] show ?case by simp
qed

lemma run_with_successful_upload:
  "list_ex (upload_succeeds env) rs \<Longrightarrow> \<exists>df. foldl (serve env) s rs = Some df"
proof (induction rs arbitrary: s)
  case Nil
  then show ?case by simp
next
  case (Cons r rs)
  show ?case
  proof (cases "upload_succeeds env r")
    case True
    from run_keeps_dataset [OF serve_successful_upload [OF True]] show ?thesis by simp
  next
    case False
    with Cons.prems have "list_ex (upload_succeeds env) rs" by simp
    from Cons.IH [OF this] show ?thesis by simp
  qed
qed

lemma run_without_successful_upload:
  "\<not> list_ex (upload_succeeds env) rs \<Longrightarrow> foldl (serve env) s rs = s"
  by (induction rs arbitrary: s) (simp_all add: serve_failed_upload)

lemma respond_no_HTTPException: "respond outcome \<noteq> Inl (HTTPException code detail)"
  by (simp add: respond_def split: sum.splits)

lemma ask_loaded_no_HTTPException: "ask env (Some df) req \<noteq> Inl (HTTPException code detail)"
  by (simp add: ask_def Let_def respond_no_HTTPException split: sum.splits)

text \<open>
  Claim C9. With no dataset loaded \<open>ask\<close> fails with the HTTP error 400
  \<open>No dataset loaded. Upload a CSV first.\<close>, for every question and horizon; this is so
  at the start and after any run of requests none of which is a successful upload. After a
  run that contains a successful upload a dataset is loaded and \<open>ask\<close> never fails with an
  HTTP error, whatever else it does. One call makes one attempt; nothing in it retries.
\<close>

theorem ask_needs_a_dataset:
  "ask env None req = Inl (HTTPException 400 ''No dataset loaded. Upload a CSV first.'')
   \<and> (\<not> list_ex (upload_succeeds env) rs \<longrightarrow>
        ask env (foldl (serve env) None rs) req =
          Inl (HTTPException 400 ''No dataset loaded. Upload a CSV first.''))
   \<and> (list_ex (upload_succeeds env) rs \<longrightarrow>
        (\<exists>df. foldl (serve env) None rs = Some df) \<and>
        (\<forall>code detail. ask env (foldl (serve env) None rs) req \<noteq> Inl (HTTPException code detail)))"
proof (intro conjI impI)
  show none: "ask env None req = Inl (HTTPException 400 ''No dataset loaded. Upload a CSV first.'')"
    by (simp add: ask_def)
  show "ask env (foldl (serve env) None rs) req =
      Inl (HTTPException 400 ''No dataset loaded. Upload a CSV first.'')"
    if "\<not> list_ex (upload_succeeds env) rs"
    using run_without_successful_upload [OF that] none by simp
  assume up: "list_ex (upload_succeeds env) rs"
  from run_with_successful_upload [OF up]
  show ex: "\<exists>df. foldl (serve env) None rs = Some df" .
  then obtain df where "foldl (serve env) None rs = Some df" ..
  then show "\<forall>code detail. ask env (foldl (serve env) None rs) req \<noteq> Inl (HTTPException code detail)"
    by (simp add: ask_loaded_no_HTTPException)
qed

text \<open>A failed upload and a question leave no dataset; a later good upload loads one.\<close>

theorem ask_needs_a_dataset_witness:
  "ask csv_env (foldl (serve csv_env) None [Upload ''bad'', Ask \<lparr>question = ''hello'', periods = None\<rparr>])
       \<lparr>question = ''total quantity'', periods = None\<rparr> =
     Inl (HTTPException 400 ''No dataset loaded. Upload a CSV first.'')
   \<and> (\<exists>df. foldl (serve csv_env) None [Upload ''bad'', Upload ''good'', Upload ''bad''] = Some df)"
proof -
  have bad: "\<not> upload_succeeds csv_env (Upload ''bad'')"
    by (simp add: upload_succeeds_def parse_csv_to_dataframe_def csv_env_def offline_env_def)
  have good: "upload_succeeds csv_env (Upload ''good'')"
    by (simp add: upload_succeeds_def parse_csv_to_dataframe_def csv_env_def offline_env_def)
  have ask: "\<not> upload_succeeds csv_env (Ask \<lparr>question = ''hello'', periods = None\<rparr>)"
    by (simp add: upload_succeeds_def)
  have n: "\<not> list_ex (upload_succeeds csv_env) [Upload ''bad'', Ask \<lparr>question = ''hello'', periods = None\<rparr>]"
    using bad ask by simp
  have y: "list_ex (upload_succeeds csv_env) [Upload ''bad'', Upload ''good'', Upload ''bad'']"
    using good by simp
  from ask_needs_a_dataset [of csv_env "\<lparr>question = ''total quantity'', periods = None\<rparr>"
      "[Upload ''bad'', Ask \<lparr>question = ''hello'', periods = None\<rparr>]"] n
  have a: "ask csv_env (foldl (serve csv_env) None [Upload ''bad'', Ask \<lparr>question = ''hello'', periods = None\<rparr>])
       \<lparr>question = ''total quantity'', periods = None\<rparr> =
     Inl (HTTPException 400 ''No dataset loaded. Upload a CSV first.'')"
    by blast
  from ask_needs_a_dataset [of csv_env "\<lparr>question = ''total quantity'', periods = None\<rparr>"
      "[Upload ''bad'', Upload ''good'', Upload ''bad'']"] y
  have b: "\<exists>df. foldl (serve csv_env) None [Upload ''bad'', Upload ''good'', Upload ''bad''] = Some df"
    by blast
  from a b show ?thesis ..
qed

section \<open>Routes: the trend intent\<close>

text \<open>
  Claim C10. For a question of trend intent the response of \<open>ask\<close> is that of the trend
  analyzer on the columns GrossQuantity and ExitTime; the question enters nowhere else.
  Spelled out: with no valid row the text is \<open>No data to plot\<close>; otherwise the figure
  sent to the chart sink is the line chart \<open>Daily GrossQuantity trend\<close> of the daily
  GrossQuantity sums by ExitTime, and the response names that chart. The question
  \<open>plot the FlowRate by day\<close> is of trend intent.
\<close>

theorem trend_intent_charts_gross_quantity:
  assumes "classify_query_intent (question req) = ''trend''"
  shows "ask env (Some df) req = respond (trend_chart env df Col_GrossQuantity Col_ExitTime)
   \<and> ask env (Some df) req =
       (if valid_rows df Col_ExitTime Col_GrossQuantity = [] then
          Inr \<lparr>resp_text = ''No data to plot'', resp_imageUrl = None\<rparr>
        else
          (case savefig env (''trend_GrossQuantity_'' @ take 8 (uuid4_hex env) @ ''.png'')
                  (Line_plot ''Daily GrossQuantity trend'' ''Date'' ''GrossQuantity''
                     (daily_aggregate df Col_ExitTime Col_GrossQuantity)) of
             Some e \<Rightarrow> Inl (Unhandled e)
           | None \<Rightarrow>
               Inr \<lparr>resp_text = ''Trend of GrossQuantity over time.'',
                    resp_imageUrl =
                      Some (''/static/charts/trend_GrossQuantity_'' @ take 8 (uuid4_hex env) @ ''.png'')\<rparr>))
   \<and> classify_query_intent ''plot the FlowRate by day'' = ''trend''"
proof (intro conjI)
  show a: "ask env (Some df) req = respond (trend_chart env df Col_GrossQuantity Col_ExitTime)"
    using assms by (simp add: ask_def Let_def)
  show "ask env (Some df) req =
       (if valid_rows df Col_ExitTime Col_GrossQuantity = [] then
          Inr \<lparr>resp_text = ''No data to plot'', resp_imageUrl = None\<rparr>
        else
          (case savefig env (''trend_GrossQuantity_'' @ take 8 (uuid4_hex env) @ ''.png'')
                  (Line_plot ''Daily GrossQuantity trend'' ''Date'' ''GrossQuantity''
                     (daily_aggregate df Col_ExitTime Col_GrossQuantity)) of
             Some e \<Rightarrow> Inl (Unhandled e)
           | None \<Rightarrow>
               Inr \<lparr>resp_text = ''Trend of GrossQuantity over time.'',
                    resp_imageUrl =
                      Some (''/static/charts/trend_GrossQuantity_'' @ take 8 (uuid4_hex env) @ ''.png'')\<rparr>))"
    unfolding a
    by (simp add: trend_chart_def Let_def respond_def save_plot_return_url_def daily_aggregate_Nil
          split: option.splits)
  show "classify_query_intent ''plot the FlowRate by day'' = ''trend''"
    by code_simp
qed

text \<open>
  Asked to plot the FlowRate, the server sends the GrossQuantity chart to a sink that
  accepts no other figure.
\<close>

theorem trend_intent_charts_gross_quantity_witness:
  "ask strict_sink_env (Some example_df) \<lparr>question = ''plot the FlowRate by day'', periods = None\<rparr> =
     Inr \<lparr>resp_text = ''Trend of GrossQuantity over time.'',
          resp_imageUrl = Some ''/static/charts/trend_GrossQuantity_01234567.png''\<rparr>"
proof -
  have c: "classify_query_intent (question \<lparr>question = ''plot the FlowRate by day'', periods = None\<rparr>) = ''trend''"
    by code_simp
  have v: "valid_rows example_df Col_ExitTime Col_GrossQuantity \<noteq> []"
    by (simp add: valid_rows_def example_df_def shipment_def)
  have agg: "daily_aggregate example_df Col_ExitTime Col_GrossQuantity = [(0, 10), (1, 0), (2, 50)]"
    by code_simp
  note th = trend_intent_charts_gross_quantity [OF c, of strict_sink_env example_df]
  from th [THEN conjunct2, THEN conjunct1] v
  show ?thesis
    unfolding agg by (simp add: strict_sink_env_def offline_env_def)
qed

end
